theory Spec2Isabelle
  imports Complex_Main "HOL-Library.Word"
begin

section \<open>RecipeBox: the ingredient scaler and the recipe repository\<close>

text \<open>
  A shallow embedding of \<^verbatim>\<open>recipe_box.py\<close>: the scaling helper
  \<^verbatim>\<open>_scale_ingredient_line\<close> and the repository class \<^verbatim>\<open>RecipeRepo\<close>
  (search, CSV import and export, the tolerant row decoder).

  Conventions of the model.
  \<^item> A Python \<^verbatim>\<open>str\<close> is a \<open>string\<close>; a \<open>char\<close> stands for the code point
    of the same number, so the model covers texts whose code points are below 256.
    The character classes below are those of Python 3 on that range.
  \<^item> A Python exception is a value of \<open>py_error\<close>; a computation that may raise
    returns \<open>py_error + 'a\<close>, with \<open>Inl\<close> for the exception.
  \<^item> Python integers are \<open>int\<close>. A Python \<^verbatim>\<open>float\<close> is a \<open>pyfloat\<close>: a rational,
    an infinity or NaN, with every arithmetic result rounded to the nearest binary64
    value (ties to even). The sign of a zero is not represented; no result of the
    functions below depends on it.
\<close>

subsection \<open>Exceptions\<close>

datatype py_error =
    ValueError
  | ZeroDivisionError
  | OverflowError
  | AttributeError
  | TypeError
  | OperationalError

subsection \<open>Characters and strings\<close>

definition code :: "char \<Rightarrow> int" where
  "code c = of_char c"

text \<open>\<^verbatim>\<open>str.isspace\<close>, which is also the class \<^verbatim>\<open>\s\<close> of \<^verbatim>\<open>re\<close> and what
  \<^verbatim>\<open>strip()\<close> and \<^verbatim>\<open>split()\<close> remove.\<close>

definition is_space :: "char \<Rightarrow> bool" where
  "is_space c = (let n = code c in
     (9 \<le> n \<and> n \<le> 13) \<or> (28 \<le> n \<and> n \<le> 32) \<or> n = 133 \<or> n = 160)"

text \<open>The class \<^verbatim>\<open>\d\<close>: the decimal digits.\<close>

definition is_digit :: "char \<Rightarrow> bool" where
  "is_digit c = (let n = code c in 48 \<le> n \<and> n \<le> 57)"

text \<open>The class \<^verbatim>\<open>\w\<close>: alphanumeric characters and the underscore.\<close>

definition is_word :: "char \<Rightarrow> bool" where
  "is_word c = (let n = code c in
     (48 \<le> n \<and> n \<le> 57) \<or> (65 \<le> n \<and> n \<le> 90) \<or> n = 95 \<or> (97 \<le> n \<and> n \<le> 122)
     \<or> n = 170 \<or> n = 178 \<or> n = 179 \<or> n = 181 \<or> n = 185 \<or> n = 186
     \<or> (188 \<le> n \<and> n \<le> 190) \<or> (192 \<le> n \<and> n \<le> 214)
     \<or> (216 \<le> n \<and> n \<le> 246) \<or> (248 \<le> n \<and> n \<le> 255))"

definition lstrip :: "string \<Rightarrow> string" where
  "lstrip s = dropWhile is_space s"

definition rstrip :: "string \<Rightarrow> string" where
  "rstrip s = rev (dropWhile is_space (rev s))"

definition strip :: "string \<Rightarrow> string" where
  "strip s = rstrip (lstrip s)"

text \<open>\<^verbatim>\<open>s.rstrip(chars)\<close> for a one-character argument.\<close>

definition rstrip_char :: "char \<Rightarrow> string \<Rightarrow> string" where
  "rstrip_char c s = rev (dropWhile (\<lambda>x. x = c) (rev s))"

text \<open>\<^verbatim>\<open>s.split(sep)\<close> for a one-character separator: every occurrence splits,
  and the empty string gives one empty piece.\<close>

fun split_on :: "char \<Rightarrow> string \<Rightarrow> string list" where
  "split_on sep [] = [[]]"
| "split_on sep (c # cs) =
     (if c = sep then [] # split_on sep cs
      else (case split_on sep cs of
              [] \<Rightarrow> [[c]]
            | w # ws \<Rightarrow> (c # w) # ws))"

text \<open>\<^verbatim>\<open>sep.join(xs)\<close>.\<close>

fun join :: "string \<Rightarrow> string list \<Rightarrow> string" where
  "join sep [] = []"
| "join sep [x] = x"
| "join sep (x # y # ys) = x @ sep @ join sep (y # ys)"

text \<open>\<^verbatim>\<open>s.split()\<close>: the maximal runs of non-whitespace characters.\<close>

function split_ws :: "string \<Rightarrow> string list" where
  "split_ws s =
     (let t = dropWhile is_space s in
      if t = [] then []
      else takeWhile (\<lambda>c. \<not> is_space c) t # split_ws (dropWhile (\<lambda>c. \<not> is_space c) t))"
  by pat_completeness auto
termination
proof (relation "measure length")
  show "wf (measure length)" by simp
next
  fix s t :: string
  assume t: "t = dropWhile is_space s" and ne: "t \<noteq> []"
  have "length (dropWhile (\<lambda>c. \<not> is_space c) t) < length t"
  proof (cases t)
    case Nil
    with ne show ?thesis by simp
  next
    case (Cons c cs)
    have "dropWhile is_space s = c # cs"
      using t Cons by simp
    then have "\<not> is_space c"
      by (simp add: dropWhile_eq_Cons_conv)
    then have "dropWhile (\<lambda>c. \<not> is_space c) t = dropWhile (\<lambda>c. \<not> is_space c) cs"
      using Cons by simp
    then show ?thesis
      using Cons length_dropWhile_le [of "\<lambda>c. \<not> is_space c" cs] by simp
  qed
  moreover have "length t \<le> length s"
    using t length_dropWhile_le by simp
  ultimately show "(dropWhile (\<lambda>c. \<not> is_space c) t, s) \<in> measure length"
    by simp
qed

declare split_ws.simps [simp del]

subsection \<open>Decimal numerals\<close>

definition digit_val :: "char \<Rightarrow> int" where
  "digit_val c = code c - 48"

text \<open>The value of a string of decimal digits, most significant first.\<close>

definition digits_val :: "string \<Rightarrow> int" where
  "digits_val ds = foldl (\<lambda>acc c. 10 * acc + digit_val c) 0 ds"

definition digit_char :: "int \<Rightarrow> char" where
  "digit_char d = char_of (48 + d)"

text \<open>\<^verbatim>\<open>str(k)\<close> for an integer: first the digits of a natural number.\<close>

function str_nat :: "int \<Rightarrow> string" where
  "str_nat n = (if n < 10 then [digit_char n] else str_nat (n div 10) @ [digit_char (n mod 10)])"
  by pat_completeness auto
termination
  by (relation "measure nat") auto

declare str_nat.simps [simp del]

definition str_int :: "int \<Rightarrow> string" where
  "str_int k = (if k < 0 then CHR ''-'' # str_nat (- k) else str_nat k)"

subsection \<open>Floating point\<close>

datatype pyfloat = Finite rat | PosInf | NegInf | NaN

text \<open>The number of binary digits of a positive integer.\<close>

function bit_length :: "int \<Rightarrow> int" where
  "bit_length n = (if n \<le> 0 then 0 else 1 + bit_length (n div 2))"
  by pat_completeness auto
termination
  by (relation "measure nat") auto

declare bit_length.simps [simp del]

definition pow2 :: "int \<Rightarrow> rat" where
  "pow2 k = (if 0 \<le> k then 2 ^ nat k else 1 / 2 ^ nat (- k))"

text \<open>For \<open>0 < x\<close>, the integer \<open>e\<close> with \<open>2\<^sup>e \<le> x < 2\<^sup>e\<^sup>+\<^sup>1\<close>.\<close>

definition ilog2 :: "rat \<Rightarrow> int" where
  "ilog2 x = (if 1 \<le> x then bit_length \<lfloor>x\<rfloor> - 1
              else - bit_length (\<lceil>1 / x\<rceil> - 1))"

text \<open>The nearest integer, ties to the even one: Python's \<^verbatim>\<open>round\<close> of a float.\<close>

definition round_half_even :: "rat \<Rightarrow> int" where
  "round_half_even x =
     (let n = \<lfloor>x\<rfloor>; d = x - of_int n in
      if d < 1 / 2 then n
      else if 1 / 2 < d then n + 1
      else if even n then n else n + 1)"

text \<open>Rounding a rational to binary64. The result keeps 53 significant bits: with
  \<open>e\<close> the exponent of the leading bit, it is a multiple of \<open>2\<^sup>e\<^sup>-\<^sup>5\<^sup>2\<close>, the nearest
  one, ties to the even multiple. Below \<open>2\<^sup>-\<^sup>1\<^sup>0\<^sup>2\<^sup>2\<close> the spacing stays that of the
  subnormal numbers, and a result of \<open>2\<^sup>1\<^sup>0\<^sup>2\<^sup>4\<close> or more is an infinity.\<close>

definition round_double :: "rat \<Rightarrow> pyfloat" where
  "round_double x =
     (if x = 0 then Finite 0
      else
        let a = \<bar>x\<bar>;
            e = max (ilog2 a) (- 1022);
            n = round_half_even (a / pow2 (e - 52))
        in if 1024 \<le> e \<or> (e = 1023 \<and> n = 2 ^ 53) then (if 0 < x then PosInf else NegInf)
           else Finite ((if 0 < x then 1 else - 1) * of_int n * pow2 (e - 52)))"

fun fneg :: "pyfloat \<Rightarrow> pyfloat" where
  "fneg (Finite x) = Finite (- x)"
| "fneg PosInf = NegInf"
| "fneg NegInf = PosInf"
| "fneg NaN = NaN"

fun fabs :: "pyfloat \<Rightarrow> pyfloat" where
  "fabs (Finite x) = Finite \<bar>x\<bar>"
| "fabs PosInf = PosInf"
| "fabs NegInf = PosInf"
| "fabs NaN = NaN"

fun fadd :: "pyfloat \<Rightarrow> pyfloat \<Rightarrow> pyfloat" where
  "fadd (Finite x) (Finite y) = round_double (x + y)"
| "fadd NaN _ = NaN"
| "fadd _ NaN = NaN"
| "fadd PosInf NegInf = NaN"
| "fadd NegInf PosInf = NaN"
| "fadd PosInf _ = PosInf"
| "fadd NegInf _ = NegInf"
| "fadd _ PosInf = PosInf"
| "fadd _ NegInf = NegInf"

definition fsub :: "pyfloat \<Rightarrow> pyfloat \<Rightarrow> pyfloat" where
  "fsub x y = fadd x (fneg y)"

text \<open>The sign of a float that is not NaN: \<open>-1\<close>, \<open>0\<close> or \<open>1\<close>.\<close>

fun fsgn :: "pyfloat \<Rightarrow> int" where
  "fsgn (Finite x) = (if x < 0 then - 1 else if x = 0 then 0 else 1)"
| "fsgn PosInf = 1"
| "fsgn NegInf = - 1"
| "fsgn NaN = 0"

fun fmul :: "pyfloat \<Rightarrow> pyfloat \<Rightarrow> pyfloat" where
  "fmul (Finite x) (Finite y) = round_double (x * y)"
| "fmul NaN _ = NaN"
| "fmul _ NaN = NaN"
| "fmul x y =
     (let s = fsgn x * fsgn y in
      if s = 0 then NaN else if 0 < s then PosInf else NegInf)"

text \<open>Python's \<^verbatim>\<open>x / y\<close> on floats raises on every zero divisor.\<close>

fun fdiv :: "pyfloat \<Rightarrow> pyfloat \<Rightarrow> py_error + pyfloat" where
  "fdiv x (Finite y) =
     (if y = 0 then Inl ZeroDivisionError
      else (case x of
              Finite a \<Rightarrow> Inr (round_double (a / y))
            | NaN \<Rightarrow> Inr NaN
            | _ \<Rightarrow> Inr (if 0 < fsgn x * fsgn (Finite y) then PosInf else NegInf)))"
| "fdiv NaN _ = Inr NaN"
| "fdiv _ NaN = Inr NaN"
| "fdiv (Finite x) _ = Inr (Finite 0)"
| "fdiv _ _ = Inr NaN"

text \<open>\<^verbatim>\<open>x < y\<close> on floats; every comparison with NaN is false.\<close>

fun fless :: "pyfloat \<Rightarrow> pyfloat \<Rightarrow> bool" where
  "fless (Finite x) (Finite y) = (x < y)"
| "fless NaN _ = False"
| "fless _ NaN = False"
| "fless NegInf y = (y \<noteq> NegInf)"
| "fless x PosInf = (x \<noteq> PosInf)"
| "fless _ _ = False"

text \<open>\<^verbatim>\<open>round(x)\<close> with one argument gives an integer, and raises on an infinity
  and on NaN.\<close>

fun py_round :: "pyfloat \<Rightarrow> py_error + int" where
  "py_round (Finite x) = Inr (round_half_even x)"
| "py_round NaN = Inl ValueError"
| "py_round _ = Inl OverflowError"

text \<open>The conversion of an integer operand in mixed arithmetic: the nearest float,
  \<^verbatim>\<open>OverflowError\<close> when the integer is out of range.\<close>

definition float_of_int :: "int \<Rightarrow> py_error + pyfloat" where
  "float_of_int k =
     (case round_double (of_int k) of
        Finite y \<Rightarrow> Inr (Finite y)
      | _ \<Rightarrow> Inl OverflowError)"

text \<open>\<^verbatim>\<open>f"{x:.2f}"\<close>: the exact value rounded to two decimals, ties to even.\<close>

definition fmt_centi :: "int \<Rightarrow> string" where
  "fmt_centi n = str_nat (n div 100) @ [CHR ''.'', digit_char (n mod 100 div 10), digit_char (n mod 10)]"

fun fmt2 :: "pyfloat \<Rightarrow> string" where
  "fmt2 (Finite x) =
     (if x < 0 then CHR ''-'' # fmt_centi (round_half_even (- x * 100))
      else fmt_centi (round_half_even (x * 100)))"
| "fmt2 PosInf = ''inf''"
| "fmt2 NegInf = ''-inf''"
| "fmt2 NaN = ''nan''"

subsection \<open>Raising computations\<close>

text \<open>Sequencing: the second computation runs only if the first did not raise.\<close>

definition ebind :: "py_error + 'a \<Rightarrow> ('a \<Rightarrow> py_error + 'b) \<Rightarrow> py_error + 'b" where
  "ebind m f = (case m of Inl e \<Rightarrow> Inl e | Inr x \<Rightarrow> f x)"

subsection \<open>Parsing numbers: \<^verbatim>\<open>float(s)\<close> and \<^verbatim>\<open>int(s)\<close>\<close>

text \<open>The whitespace that \<^verbatim>\<open>int\<close> and \<^verbatim>\<open>float\<close> ignore around a numeral: it is
  \<^verbatim>\<open>str.isspace\<close> without the four separators 28 to 31.\<close>

definition is_num_space :: "char \<Rightarrow> bool" where
  "is_num_space c = (let n = code c in (9 \<le> n \<and> n \<le> 13) \<or> n = 32 \<or> n = 133 \<or> n = 160)"

definition num_strip :: "string \<Rightarrow> string" where
  "num_strip s = rev (dropWhile is_num_space (rev (dropWhile is_num_space s)))"

text \<open>A run of digits in which single underscores may separate digits; the result is
  the digits without the underscores and the unread rest.\<close>

fun digitpart :: "string \<Rightarrow> string \<times> string" where
  "digitpart [] = ([], [])"
| "digitpart [c] = (if is_digit c then ([c], []) else ([], [c]))"
| "digitpart (c # u # cs) =
     (if \<not> is_digit c then ([], c # u # cs)
      else if is_digit u then (let (ds, r) = digitpart (u # cs) in (c # ds, r))
      else if u = CHR ''_'' \<and> cs \<noteq> [] \<and> is_digit (hd cs)
        then (let (ds, r) = digitpart cs in (c # ds, r))
      else ([c], u # cs))"

definition ascii_lower :: "char \<Rightarrow> char" where
  "ascii_lower c = (let n = code c in if 65 \<le> n \<and> n \<le> 90 then char_of (n + 32) else c)"

text \<open>An optional sign: whether it is a minus, and the rest.\<close>

definition take_sign :: "string \<Rightarrow> bool \<times> string" where
  "take_sign s =
     (case s of
        [] \<Rightarrow> (False, [])
      | c # r \<Rightarrow> if c = CHR ''-'' then (True, r) else if c = CHR ''+'' then (False, r) else (False, s))"

definition pow10 :: "int \<Rightarrow> rat" where
  "pow10 k = (if 0 \<le> k then 10 ^ nat k else 1 / 10 ^ nat (- k))"

text \<open>The exponent part of a float literal: empty, or \<^verbatim>\<open>e\<close> or \<^verbatim>\<open>E\<close>, an optional
  sign and digits up to the end.\<close>

definition exponent_part :: "string \<Rightarrow> int option" where
  "exponent_part s =
     (case s of
        [] \<Rightarrow> Some 0
      | c # r \<Rightarrow>
          if c = CHR ''e'' \<or> c = CHR ''E'' then
            (let (neg, r1) = take_sign r; (ds, r2) = digitpart r1 in
             if ds \<noteq> [] \<and> r2 = [] then Some (if neg then - digits_val ds else digits_val ds)
             else None)
          else None)"

text \<open>The unsigned decimal literals \<^verbatim>\<open>float\<close> accepts: digits, an optional point and
  digits (at least one digit on one side of the point), an optional exponent.\<close>

definition float_body :: "string \<Rightarrow> rat option" where
  "float_body s =
     (let (ip, r1) = digitpart s;
          (fp, r2) = (if r1 \<noteq> [] \<and> hd r1 = CHR ''.'' then digitpart (tl r1) else ([], r1))
      in if ip = [] \<and> fp = [] then None
         else (case exponent_part r2 of
                 None \<Rightarrow> None
               | Some ex \<Rightarrow> Some (of_int (digits_val (ip @ fp)) * pow10 (ex - int (length fp)))))"

text \<open>\<^verbatim>\<open>float(s)\<close> for a string: surrounding whitespace is ignored, the value is the
  nearest float, and anything else raises \<^verbatim>\<open>ValueError\<close>.\<close>

definition py_float :: "string \<Rightarrow> py_error + pyfloat" where
  "py_float s =
     (let (neg, u) = take_sign (num_strip s); w = map ascii_lower u in
      if w = ''inf'' \<or> w = ''infinity'' then Inr (if neg then NegInf else PosInf)
      else if w = ''nan'' then Inr NaN
      else (case float_body u of
              None \<Rightarrow> Inl ValueError
            | Some x \<Rightarrow> Inr (round_double (if neg then - x else x))))"

text \<open>\<^verbatim>\<open>int(s)\<close> for a string, in base ten: surrounding whitespace is ignored; an
  optional sign and digits, single underscores allowed between digits.\<close>

definition py_int :: "string \<Rightarrow> py_error + int" where
  "py_int s =
     (let (neg, u) = take_sign (num_strip s); (ds, r) = digitpart u in
      if ds \<noteq> [] \<and> r = [] then Inr (if neg then - digits_val ds else digits_val ds)
      else Inl ValueError)"

subsection \<open>The leading-quantity pattern\<close>

text \<open>
  \<^verbatim>\<open>re.match(r"^(\d+\s+\d+/\d+|\d+/\d+|\d+(?:\.\d+)?)\b(.*)$", s)\<close>.
  Every repetition in the first group is followed by something its own class excludes
  (a digit run by whitespace, a slash, a point or the word boundary), so each
  alternative can only match with its runs taken whole; the alternatives are tried in
  order, the decimal one first with and then without its fractional part. A candidate
  is the text of group 1 and what follows it.
\<close>

definition digits_of :: "string \<Rightarrow> string \<times> string" where
  "digits_of s = (takeWhile is_digit s, dropWhile is_digit s)"

text \<open>\<^verbatim>\<open>\d+/\d+\<close>\<close>

definition alt_fraction :: "string \<Rightarrow> (string \<times> string) option" where
  "alt_fraction s =
     (let (n, r1) = digits_of s in
      if n \<noteq> [] \<and> r1 \<noteq> [] \<and> hd r1 = CHR ''/'' then
        (let (d, r2) = digits_of (tl r1) in
         if d \<noteq> [] then Some (n @ ''/'' @ d, r2) else None)
      else None)"

text \<open>\<^verbatim>\<open>\d+\s+\d+/\d+\<close>\<close>

definition alt_mixed :: "string \<Rightarrow> (string \<times> string) option" where
  "alt_mixed s =
     (let (a, r1) = digits_of s; w = takeWhile is_space r1 in
      if a \<noteq> [] \<and> w \<noteq> [] then
        (case alt_fraction (dropWhile is_space r1) of
           None \<Rightarrow> None
         | Some (f, r2) \<Rightarrow> Some (a @ w @ f, r2))
      else None)"

text \<open>\<^verbatim>\<open>\d+\.\d+\<close>, the decimal alternative with its optional group taken.\<close>

definition alt_decimal :: "string \<Rightarrow> (string \<times> string) option" where
  "alt_decimal s =
     (let (a, r1) = digits_of s in
      if a \<noteq> [] \<and> r1 \<noteq> [] \<and> hd r1 = CHR ''.'' then
        (let (f, r2) = digits_of (tl r1) in
         if f \<noteq> [] then Some (a @ ''.'' @ f, r2) else None)
      else None)"

text \<open>\<^verbatim>\<open>\d+\<close>, the decimal alternative with its optional group skipped.\<close>

definition alt_integer :: "string \<Rightarrow> (string \<times> string) option" where
  "alt_integer s =
     (let (a, r1) = digits_of s in if a \<noteq> [] then Some (a, r1) else None)"

text \<open>\<^verbatim>\<open>\b\<close> after group 1, whose last character is a digit: the end of the text or
  a character that is not a word character.\<close>

definition word_boundary :: "string \<Rightarrow> bool" where
  "word_boundary r = (case r of [] \<Rightarrow> True | c # _ \<Rightarrow> \<not> is_word c)"

text \<open>\<^verbatim>\<open>(.*)$\<close>: the dot matches everything but a newline, and the end is the end of the
  text or the place before a final newline. The result is group 2.\<close>

definition rest_group :: "string \<Rightarrow> string option" where
  "rest_group r =
     (let g = takeWhile (\<lambda>c. c \<noteq> CHR 0x0A) r; t = dropWhile (\<lambda>c. c \<noteq> CHR 0x0A) r in
      if t = [] \<or> t = [CHR 0x0A] then Some g else None)"

definition accept :: "(string \<times> string) option \<Rightarrow> (string \<times> string) option" where
  "accept cand =
     (case cand of
        None \<Rightarrow> None
      | Some (q, r) \<Rightarrow>
          if word_boundary r then (case rest_group r of None \<Rightarrow> None | Some g \<Rightarrow> Some (q, g))
          else None)"

text \<open>The match: groups 1 and 2, or \<open>None\<close>.\<close>

definition re_match :: "string \<Rightarrow> (string \<times> string) option" where
  "re_match s =
     (case accept (alt_mixed s) of
        Some m \<Rightarrow> Some m
      | None \<Rightarrow>
          (case accept (alt_fraction s) of
             Some m \<Rightarrow> Some m
           | None \<Rightarrow>
               (case accept (alt_decimal s) of
                  Some m \<Rightarrow> Some m
                | None \<Rightarrow> accept (alt_integer s))))"

subsection \<open>The scaling helper\<close>

text \<open>\<^verbatim>\<open>_frac_str_to_float\<close>: unpacking the two pieces raises \<^verbatim>\<open>ValueError\<close> unless
  there is exactly one slash.\<close>

definition frac_str_to_float :: "string \<Rightarrow> py_error + pyfloat" where
  "frac_str_to_float fr =
     (case split_on (CHR ''/'') fr of
        [num, den] \<Rightarrow>
          ebind (py_float num) (\<lambda>n. ebind (py_float den) (\<lambda>d. fdiv n d))
      | _ \<Rightarrow> Inl ValueError)"

text \<open>\<^verbatim>\<open>frac_to_float\<close>\<close>

definition frac_to_float :: "string \<Rightarrow> py_error + pyfloat" where
  "frac_to_float q =
     (if CHR '' '' \<in> set q then
        (case split_ws q of
           [a, b] \<Rightarrow>
             ebind (py_float a) (\<lambda>x. ebind (frac_str_to_float b) (\<lambda>y. Inr (fadd x y)))
         | _ \<Rightarrow> Inl ValueError)
      else if CHR ''/'' \<in> set q then frac_str_to_float q
      else py_float q)"

text \<open>The literal \<^verbatim>\<open>1e-6\<close>.\<close>

definition tolerance :: pyfloat where
  "tolerance = round_double (1 / 1000000)"

text \<open>\<^verbatim>\<open>abs(new_qty - round(new_qty)) < 1e-6\<close>\<close>

definition near_integer :: "pyfloat \<Rightarrow> py_error + bool" where
  "near_integer x =
     ebind (py_round x) (\<lambda>k.
     ebind (float_of_int k) (\<lambda>kf.
     Inr (fless (fabs (fsub x kf)) tolerance)))"

text \<open>\<^verbatim>\<open>f"{new_qty:.2f}".rstrip("0").rstrip(".")\<close>\<close>

definition fmt_trimmed :: "pyfloat \<Rightarrow> string" where
  "fmt_trimmed x = rstrip_char (CHR ''.'') (rstrip_char (CHR ''0'') (fmt2 x))"

text \<open>The body of the \<^verbatim>\<open>try\<close> block.\<close>

definition scale_try :: "string \<Rightarrow> string \<Rightarrow> pyfloat \<Rightarrow> py_error + string" where
  "scale_try qty_str rest ratio =
     ebind (frac_to_float qty_str) (\<lambda>qty.
       let new_qty = fmul qty ratio in
       ebind (near_integer new_qty) (\<lambda>near.
       ebind (if near then ebind (py_round new_qty) (\<lambda>k. Inr (str_int k))
              else Inr (fmt_trimmed new_qty)) (\<lambda>qty_fmt.
       Inr (qty_fmt @ '' '' @ rest))))"

text \<open>\<^verbatim>\<open>_scale_ingredient_line\<close>: every exception of the \<^verbatim>\<open>try\<close> block is caught and
  the stripped line returned.\<close>

definition scale_ingredient_line :: "string \<Rightarrow> pyfloat \<Rightarrow> py_error + string" where
  "scale_ingredient_line line ratio =
     (let s = strip line in
      case re_match s of
        None \<Rightarrow> Inr s
      | Some (g1, g2) \<Rightarrow>
          (case scale_try (strip g1) (strip g2) ratio of
             Inl e \<Rightarrow> Inr s
           | Inr out \<Rightarrow> Inr out))"

subsection \<open>Notions used to state the properties\<close>



text \<open>The number a rendered quantity denotes when it is read as a decimal numeral: an
  optional minus sign, digits, and optionally a point and further digits.\<close>

definition decimal_value :: "string \<Rightarrow> rat" where
  "decimal_value s =
     (let neg = (s \<noteq> [] \<and> hd s = CHR ''-'');
          u = (if neg then tl s else s);
          ip = takeWhile (\<lambda>c. c \<noteq> CHR ''.'') u;
          fp = drop 1 (dropWhile (\<lambda>c. c \<noteq> CHR ''.'') u);
          v = of_int (digits_val ip) + of_int (digits_val fp) / 10 ^ length fp
      in if neg then - v else v)"

section \<open>Properties of the scaling helper\<close>

subsection \<open>Digit strings and the conversion of a quantity\<close>

lemma digit_not_space: "is_digit c \<Longrightarrow> \<not> is_space c"
  by (auto simp: is_digit_def is_space_def Let_def)



lemma digit_not_special:
  assumes "is_digit c"
  shows "c \<noteq> CHR ''/''" "c \<noteq> CHR ''.''" "c \<noteq> CHR ''-''" "c \<noteq> CHR ''+''" "c \<noteq> CHR '' ''"
    "c \<noteq> CHR ''i''" "c \<noteq> CHR ''n''"
  using assms by (auto simp: is_digit_def code_def)

















subsection \<open>What the pattern matches\<close>























subsection \<open>Digits written and read back\<close>

lemma digit_char_digit: "0 \<le> d \<Longrightarrow> d < 10 \<Longrightarrow> is_digit (digit_char d)"
proof -
  assume "0 \<le> d" "d < 10"
  then have "d = 0 \<or> d = 1 \<or> d = 2 \<or> d = 3 \<or> d = 4 \<or> d = 5 \<or> d = 6 \<or> d = 7 \<or> d = 8 \<or> d = 9"
    by arith
  then show ?thesis
    by (elim disjE) (simp_all add: is_digit_def digit_char_def code_def)
qed

lemma str_nat_digits: "0 \<le> n \<Longrightarrow> c \<in> set (str_nat n) \<Longrightarrow> is_digit c"
proof (induction n arbitrary: c rule: str_nat.induct)
  case (1 n)
  show ?case
  proof (cases "n < 10")
    case True
    with "1.prems" show ?thesis
      by (simp add: str_nat.simps [of n] digit_char_digit)
  next
    case False
    have "0 \<le> n mod 10" "n mod 10 < 10" by simp_all
    then have "is_digit (digit_char (n mod 10))" by (rule digit_char_digit)
    moreover have "0 \<le> n div 10" using "1.prems"(1) by simp
    ultimately show ?thesis
      using False "1.prems" "1.IH" by (auto simp: str_nat.simps [of n])
  qed
qed

lemma str_nat_nonempty: "str_nat n \<noteq> []"
  by (simp add: str_nat.simps [of n])

lemma str_int_chars: "c \<in> set (str_int k) \<Longrightarrow> is_digit c \<or> c = CHR ''-''"
  using str_nat_digits [of "- k" c] str_nat_digits [of k c]
  by (auto simp: str_int_def split: if_splits)

lemma str_int_nonempty: "str_int k \<noteq> []"
  by (simp add: str_int_def str_nat_nonempty)

lemma round_half_even_nonneg: "0 \<le> x \<Longrightarrow> 0 \<le> round_half_even x"
  by (auto simp: round_half_even_def Let_def)

lemma fmt_centi_shape:
  assumes "0 \<le> n"
  shows "\<exists>ip d1 d2. fmt_centi n = ip @ [CHR ''.'', d1, d2] \<and> ip \<noteq> []
           \<and> (\<forall>c\<in>set (ip @ [d1, d2]). is_digit c)"
proof -
  have a: "0 \<le> n div 100" using assms by simp
  have "0 \<le> n mod 100 div 10" "n mod 100 div 10 < 10" "0 \<le> n mod 10" "n mod 10 < 10"
    by simp_all
  then have "is_digit (digit_char (n mod 100 div 10))" "is_digit (digit_char (n mod 10))"
    by (simp_all add: digit_char_digit)
  then show ?thesis
    using str_nat_digits [OF a] str_nat_nonempty [of "n div 100"]
    by (auto simp: fmt_centi_def)
qed

lemma fmt2_shape:
  "\<exists>sg ip d1 d2. fmt2 (Finite x) = sg @ ip @ [CHR ''.'', d1, d2] \<and> (sg = [] \<or> sg = ''-'')
     \<and> ip \<noteq> [] \<and> (\<forall>c\<in>set (ip @ [d1, d2]). is_digit c)"
proof -
  define m where "m = (if x < 0 then round_half_even (- x * 100) else round_half_even (x * 100))"
  define sg where "sg = (if x < 0 then ''-'' else [])"
  have "0 \<le> m"
    unfolding m_def by (auto intro!: round_half_even_nonneg)
  from fmt_centi_shape [OF this] obtain ip d1 d2 where
    c: "fmt_centi m = ip @ [CHR ''.'', d1, d2]" and r: "ip \<noteq> []"
    "\<forall>c\<in>set (ip @ [d1, d2]). is_digit c" by blast
  have "fmt2 (Finite x) = sg @ fmt_centi m"
    unfolding m_def sg_def by simp
  then have "fmt2 (Finite x) = sg @ ip @ [CHR ''.'', d1, d2]"
    unfolding c .
  moreover have "sg = [] \<or> sg = ''-''"
    unfolding sg_def by simp
  ultimately show ?thesis
    using r by blast
qed

lemma rstrip_char_subset: "set (rstrip_char c s) \<subseteq> set s"
  by (auto simp: rstrip_char_def dest: set_dropWhileD)

lemma rstrip_char_keeps:
  assumes "y \<noteq> c"
  shows "rstrip_char c (xs @ y # ys) = xs @ y # rstrip_char c ys"
proof -
  have "dropWhile (\<lambda>x. x = c) (rev ys @ y # rev xs) =
        (if \<forall>x\<in>set (rev ys). x = c then y # rev xs else dropWhile (\<lambda>x. x = c) (rev ys) @ y # rev xs)"
    using assms by (simp add: dropWhile_append)
  then show ?thesis
    by (auto simp: rstrip_char_def dropWhile_eq_Nil_conv)
qed

lemma rstrip_char_nonempty: "a \<in> set s \<Longrightarrow> a \<noteq> c \<Longrightarrow> rstrip_char c s \<noteq> []"
  by (auto simp: rstrip_char_def dropWhile_eq_Nil_conv)

lemma fmt_trimmed_chars:
  "fmt_trimmed (Finite x) \<noteq> [] \<and> (\<forall>c\<in>set (fmt_trimmed (Finite x)). \<not> is_space c)"
proof -
  obtain sg ip d1 d2 where f: "fmt2 (Finite x) = sg @ ip @ [CHR ''.'', d1, d2]"
    and sg: "sg = [] \<or> sg = ''-''" and ip: "ip \<noteq> []"
    and dg: "\<forall>c\<in>set (ip @ [d1, d2]). is_digit c"
    using fmt2_shape by blast
  have "\<not> is_space (CHR ''.'')" "\<not> is_space (CHR ''-'')"
    by (simp_all add: is_space_def code_def)
  then have "\<forall>c\<in>set (sg @ ip @ [CHR ''.'', d1, d2]). \<not> is_space c"
    using sg dg digit_not_space by auto
  then have ns: "\<forall>c\<in>set (fmt2 (Finite x)). \<not> is_space c"
    unfolding f .
  have "set (fmt_trimmed (Finite x)) \<subseteq> set (rstrip_char (CHR ''0'') (fmt2 (Finite x)))"
    unfolding fmt_trimmed_def by (rule rstrip_char_subset)
  also have "\<dots> \<subseteq> set (fmt2 (Finite x))"
    by (rule rstrip_char_subset)
  finally have sub: "set (fmt_trimmed (Finite x)) \<subseteq> set (fmt2 (Finite x))" .
  have k: "rstrip_char (CHR ''0'') ((sg @ ip) @ CHR ''.'' # [d1, d2])
           = (sg @ ip) @ CHR ''.'' # rstrip_char (CHR ''0'') [d1, d2]"
    by (rule rstrip_char_keeps) simp
  obtain a where a: "a \<in> set ip" using ip by (cases ip) auto
  have "a \<in> set (rstrip_char (CHR ''0'') (fmt2 (Finite x)))"
    unfolding f using k a by simp
  moreover have "a \<noteq> CHR ''.''"
    using a dg by (auto simp: is_digit_def code_def)
  ultimately have "fmt_trimmed (Finite x) \<noteq> []"
    unfolding fmt_trimmed_def by (rule rstrip_char_nonempty)
  then show ?thesis using ns sub by blast
qed

lemma str_int_no_space: "c \<in> set (str_int k) \<Longrightarrow> \<not> is_space c"
proof -
  assume "c \<in> set (str_int k)"
  then have "is_digit c \<or> c = CHR ''-''" by (rule str_int_chars)
  moreover have "\<not> is_space (CHR ''-'')" by (simp add: is_space_def code_def)
  ultimately show ?thesis using digit_not_space by auto
qed

lemma str_int_no_point: "CHR ''.'' \<notin> set (str_int k)"
  using str_int_chars [of "CHR ''.''" k] by (auto simp: is_digit_def code_def)


lemma digit_val_char: "0 \<le> d \<Longrightarrow> d < 10 \<Longrightarrow> digit_val (digit_char d) = d"
proof -
  assume "0 \<le> d" "d < 10"
  then have "d = 0 \<or> d = 1 \<or> d = 2 \<or> d = 3 \<or> d = 4 \<or> d = 5 \<or> d = 6 \<or> d = 7 \<or> d = 8 \<or> d = 9"
    by arith
  then show ?thesis
    by (elim disjE) (simp_all add: digit_val_def digit_char_def code_def)
qed

lemma digits_val_snoc: "digits_val (xs @ [c]) = 10 * digits_val xs + digit_val c"
  by (simp add: digits_val_def)

lemma digits_val_nil: "digits_val [] = 0"
  by (simp add: digits_val_def)

lemma digits_val_str_nat: "0 \<le> n \<Longrightarrow> digits_val (str_nat n) = n"
proof (induction n rule: str_nat.induct)
  case (1 n)
  show ?case
  proof (cases "n < 10")
    case True
    with "1.prems" show ?thesis
      using digits_val_snoc [of "[]" "digit_char n"]
      by (simp add: str_nat.simps [of n] digit_val_char digits_val_nil)
  next
    case False
    have "0 \<le> n div 10" using "1.prems" by simp
    then have "digits_val (str_nat (n div 10)) = n div 10"
      using False "1.IH" by simp
    moreover have "digit_val (digit_char (n mod 10)) = n mod 10"
      by (intro digit_val_char) simp_all
    ultimately show ?thesis
      using False by (simp add: str_nat.simps [of n] digits_val_snoc)
  qed
qed

lemma round_half_even_error: "\<bar>of_int (round_half_even y) - y\<bar> \<le> 1 / 2"
proof -
  define d where "d = y - of_int \<lfloor>y\<rfloor>"
  have d: "0 \<le> d" "d < 1"
    unfolding d_def by linarith+
  have y: "y = of_int \<lfloor>y\<rfloor> + d"
    unfolding d_def by simp
  have "round_half_even y = \<lfloor>y\<rfloor> \<and> d \<le> 1 / 2 \<or> round_half_even y = \<lfloor>y\<rfloor> + 1 \<and> 1 / 2 \<le> d"
    unfolding round_half_even_def Let_def d_def [symmetric] by auto
  then show ?thesis
    using d by (subst (2) y) auto
qed

lemma decimal_value_digits:
  assumes "ip \<noteq> []" "\<forall>c\<in>set ip. is_digit c"
  shows "decimal_value ip = of_int (digits_val ip)"
proof -
  have h: "hd ip \<noteq> CHR ''-''" using assms digit_not_special(3) by (cases ip) auto
  have "\<forall>c\<in>set ip. c \<noteq> CHR ''.''" using assms(2) digit_not_special(2) by blast
  then have t: "takeWhile (\<lambda>c. c \<noteq> CHR ''.'') ip = ip" "dropWhile (\<lambda>c. c \<noteq> CHR ''.'') ip = []"
    by simp_all
  show ?thesis
    using h by (simp add: decimal_value_def Let_def t digits_val_nil)
qed

lemma decimal_value_point:
  assumes "ip \<noteq> []" "\<forall>c\<in>set ip. is_digit c"
  shows "decimal_value (ip @ CHR ''.'' # fs) = of_int (digits_val ip) + of_int (digits_val fs) / 10 ^ length fs"
proof -
  have h: "hd (ip @ CHR ''.'' # fs) \<noteq> CHR ''-''" using assms digit_not_special(3) by (cases ip) auto
  have "\<forall>c\<in>set ip. c \<noteq> CHR ''.''" using assms(2) digit_not_special(2) by blast
  then have t: "takeWhile (\<lambda>c. c \<noteq> CHR ''.'') (ip @ CHR ''.'' # fs) = ip"
    "dropWhile (\<lambda>c. c \<noteq> CHR ''.'') (ip @ CHR ''.'' # fs) = CHR ''.'' # fs"
    by simp_all
  show ?thesis
    using h by (simp add: decimal_value_def Let_def t)
qed

lemma decimal_value_minus:
  assumes "u \<noteq> []" "is_digit (hd u)"
  shows "decimal_value (CHR ''-'' # u) = - decimal_value u"
proof -
  have "hd u \<noteq> CHR ''-''" using assms(2) digit_not_special(3) by blast
  then show ?thesis
    using assms(1) by (simp add: decimal_value_def Let_def)
qed

lemma decimal_value_str_int: "decimal_value (str_int k) = of_int k"
proof (cases "k < 0")
  case True
  have d: "\<forall>c\<in>set (str_nat (- k)). is_digit c"
    using True str_nat_digits [of "- k"] by simp
  then have "is_digit (hd (str_nat (- k)))"
    using str_nat_nonempty [of "- k"] by (cases "str_nat (- k)") auto
  then have "decimal_value (str_int k) = - decimal_value (str_nat (- k))"
    using True str_nat_nonempty by (simp add: str_int_def decimal_value_minus)
  also have "\<dots> = - of_int (digits_val (str_nat (- k)))"
    using decimal_value_digits [OF str_nat_nonempty] d by simp
  finally show ?thesis
    using True by (simp add: digits_val_str_nat)
next
  case False
  have d: "\<forall>c\<in>set (str_nat k). is_digit c"
    using False str_nat_digits [of k] by simp
  have "decimal_value (str_int k) = of_int (digits_val (str_nat k))"
    using False decimal_value_digits [OF str_nat_nonempty] d by (simp add: str_int_def)
  then show ?thesis
    using False by (simp add: digits_val_str_nat)
qed

subsection \<open>The value of a rendered quantity\<close>

lemma digits_val_two: "digits_val [a, b] = 10 * digit_val a + digit_val b"
  by (simp add: digits_val_def)

lemma fmt_centi_hd:
  assumes "0 \<le> n"
  shows "fmt_centi n \<noteq> []" "is_digit (hd (fmt_centi n))"
proof -
  have "0 \<le> n div 100" using assms by simp
  then have "\<forall>c\<in>set (str_nat (n div 100)). is_digit c"
    using str_nat_digits by blast
  then have "is_digit (hd (str_nat (n div 100)))"
    using str_nat_nonempty [of "n div 100"] by (cases "str_nat (n div 100)") auto
  then show "fmt_centi n \<noteq> []" "is_digit (hd (fmt_centi n))"
    using str_nat_nonempty [of "n div 100"] by (simp_all add: fmt_centi_def)
qed

lemma decimal_value_fmt_centi:
  assumes "0 \<le> n"
  shows "decimal_value (fmt_centi n) = of_int n / 100"
proof -
  define ip where "ip = str_nat (n div 100)"
  define a where "a = n mod 100 div 10"
  define b where "b = n mod 10"
  have i: "0 \<le> n div 100" using assms by simp
  have ip: "ip \<noteq> []" "\<forall>c\<in>set ip. is_digit c"
    unfolding ip_def using str_nat_nonempty str_nat_digits [OF i] by auto
  have vi: "digits_val ip = n div 100"
    unfolding ip_def by (rule digits_val_str_nat [OF i])
  have "0 \<le> a" "a < 10" "0 \<le> b" "b < 10"
    unfolding a_def b_def by simp_all
  then have "digit_val (digit_char a) = a" "digit_val (digit_char b) = b"
    by (simp_all add: digit_val_char)
  then have "digits_val [digit_char a, digit_char b] = 10 * a + b"
    by (simp add: digits_val_two)
  moreover have "b = n mod 100 mod 10"
    unfolding b_def by (simp add: mod_mod_cancel)
  then have "10 * a + b = n mod 100"
    unfolding a_def by simp
  ultimately have vf: "digits_val [digit_char a, digit_char b] = n mod 100"
    by simp
  have "fmt_centi n = ip @ CHR ''.'' # [digit_char a, digit_char b]"
    unfolding fmt_centi_def ip_def a_def b_def by simp
  then have "decimal_value (fmt_centi n) =
      of_int (digits_val ip) + of_int (digits_val [digit_char a, digit_char b]) / 10 ^ length [digit_char a, digit_char b]"
    using decimal_value_point [OF ip] by simp
  then have "decimal_value (fmt_centi n) = of_int (n div 100) + of_int (n mod 100) / 100"
    unfolding vi vf by simp
  moreover have "(of_int n :: rat) = 100 * of_int (n div 100) + of_int (n mod 100)"
    by (metis mult_div_mod_eq of_int_add of_int_mult of_int_numeral)
  ultimately show ?thesis
    by simp
qed

lemma decimal_value_fmt2:
  "decimal_value (fmt2 (Finite x)) =
     (if x < 0 then - of_int (round_half_even (- x * 100)) / 100
      else of_int (round_half_even (x * 100)) / 100)"
proof (cases "x < 0")
  case True
  then have m: "0 \<le> round_half_even (- x * 100)"
    by (intro round_half_even_nonneg) simp
  show ?thesis
    using True fmt_centi_hd [OF m] decimal_value_fmt_centi [OF m]
    by (simp add: decimal_value_minus)
next
  case False
  then have m: "0 \<le> round_half_even (x * 100)"
    by (intro round_half_even_nonneg) simp
  show ?thesis
    using False decimal_value_fmt_centi [OF m] by simp
qed

lemma fmt2_error: "\<bar>decimal_value (fmt2 (Finite x)) - x\<bar> \<le> 1 / 200"
proof (cases "x < 0")
  case True
  have "\<bar>of_int (round_half_even (- x * 100)) - (- x * 100)\<bar> \<le> 1 / 2"
    by (rule round_half_even_error)
  then show ?thesis
    unfolding decimal_value_fmt2 using True by (simp add: abs_if field_simps split: if_splits)
next
  case False
  have "\<bar>of_int (round_half_even (x * 100)) - x * 100\<bar> \<le> 1 / 2"
    by (rule round_half_even_error)
  then show ?thesis
    unfolding decimal_value_fmt2 using False by (simp add: abs_if field_simps split: if_splits)
qed

lemma rstrip_char_snoc: "rstrip_char c (xs @ [c]) = rstrip_char c xs"
  by (simp add: rstrip_char_def)

lemma rstrip_char_id: "xs = [] \<or> last xs \<noteq> c \<Longrightarrow> rstrip_char c xs = xs"
  by (cases xs rule: rev_cases) (auto simp: rstrip_char_def)

lemma frac_value_rstrip:
  "(of_int (digits_val (rstrip_char (CHR ''0'') fs)) / 10 ^ length (rstrip_char (CHR ''0'') fs) :: rat)
   = of_int (digits_val fs) / 10 ^ length fs"
proof (induction fs rule: rev_induct)
  case Nil
  then show ?case by (simp add: rstrip_char_def)
next
  case (snoc c fs)
  show ?case
  proof (cases "c = CHR ''0''")
    case True
    have "digit_val (CHR ''0'') = 0" by (simp add: digit_val_def code_def)
    then show ?thesis
      using snoc True by (simp add: rstrip_char_snoc digits_val_snoc)
  next
    case False
    then show ?thesis by (simp add: rstrip_char_id)
  qed
qed

lemma trimmed_unsigned:
  assumes ip: "ip \<noteq> []" "\<forall>c\<in>set ip. is_digit c" and fs: "\<forall>c\<in>set fs. is_digit c"
  shows "decimal_value (rstrip_char (CHR ''.'') (rstrip_char (CHR ''0'') (ip @ CHR ''.'' # fs)))
         = decimal_value (ip @ CHR ''.'' # fs)
       \<and> rstrip_char (CHR ''.'') (rstrip_char (CHR ''0'') (ip @ CHR ''.'' # fs)) \<noteq> []
       \<and> is_digit (hd (rstrip_char (CHR ''.'') (rstrip_char (CHR ''0'') (ip @ CHR ''.'' # fs))))"
proof -
  let ?t = "rstrip_char (CHR ''0'') fs"
  have a: "rstrip_char (CHR ''0'') (ip @ CHR ''.'' # fs) = ip @ CHR ''.'' # ?t"
    by (rule rstrip_char_keeps) simp
  have v: "(of_int (digits_val ?t) / 10 ^ length ?t :: rat) = of_int (digits_val fs) / 10 ^ length fs"
    by (rule frac_value_rstrip)
  have hd: "is_digit (hd ip)" using ip by (cases ip) auto
  have lp: "last ip \<noteq> CHR ''.''" using ip digit_not_special(2) by (cases ip rule: rev_cases) auto
  show ?thesis
  proof (cases "?t = []")
    case True
    have "rstrip_char (CHR ''.'') (ip @ [CHR ''.'']) = ip"
      using rstrip_char_snoc [of "CHR ''.''" ip] rstrip_char_id [of ip "CHR ''.''"] lp by simp
    then have r: "rstrip_char (CHR ''.'') (rstrip_char (CHR ''0'') (ip @ CHR ''.'' # fs)) = ip"
      using a True by simp
    have "(of_int (digits_val fs) / 10 ^ length fs :: rat) = 0"
      using v True by (simp add: digits_val_nil)
    then have "decimal_value (ip @ CHR ''.'' # fs) = decimal_value ip"
      using decimal_value_point [OF ip, of fs] decimal_value_digits [OF ip] by simp
    then show ?thesis
      using r ip(1) hd by simp
  next
    case False
    have "set ?t \<subseteq> set fs" by (rule rstrip_char_subset)
    then have "is_digit (last ?t)" using False fs last_in_set by blast
    then have "last (ip @ CHR ''.'' # ?t) \<noteq> CHR ''.''"
      using False digit_not_special(2) by auto
    then have r: "rstrip_char (CHR ''.'') (rstrip_char (CHR ''0'') (ip @ CHR ''.'' # fs)) = ip @ CHR ''.'' # ?t"
      using a rstrip_char_id [of "ip @ CHR ''.'' # ?t" "CHR ''.''"] by simp
    have "decimal_value (ip @ CHR ''.'' # ?t) = decimal_value (ip @ CHR ''.'' # fs)"
      using decimal_value_point [OF ip, of fs] decimal_value_point [OF ip, of ?t] v by simp
    then show ?thesis
      using r ip(1) hd by (cases ip) auto
  qed
qed

lemma rstrip_char_minus: "c \<noteq> CHR ''-'' \<Longrightarrow> rstrip_char c (CHR ''-'' # s) = CHR ''-'' # rstrip_char c s"
  using rstrip_char_keeps [of "CHR ''-''" c "[]" s] by simp

lemma fmt_trimmed_value: "decimal_value (fmt_trimmed (Finite x)) = decimal_value (fmt2 (Finite x))"
proof -
  define m where "m = (if x < 0 then round_half_even (- x * 100) else round_half_even (x * 100))"
  have m: "0 \<le> m"
    unfolding m_def by (auto intro!: round_half_even_nonneg)
  from fmt_centi_shape [OF m] obtain ip d1 d2 where
    c: "fmt_centi m = ip @ [CHR ''.'', d1, d2]" and ip: "ip \<noteq> []"
    and dg: "\<forall>c\<in>set (ip @ [d1, d2]). is_digit c" by blast
  have ipd: "\<forall>c\<in>set ip. is_digit c" and fsd: "\<forall>c\<in>set [d1, d2]. is_digit c"
    using dg by auto
  note t = trimmed_unsigned [OF ip ipd fsd]
  have c': "fmt_centi m = ip @ CHR ''.'' # [d1, d2]" using c by simp
  show ?thesis
  proof (cases "x < 0")
    case True
    then have f: "fmt2 (Finite x) = CHR ''-'' # fmt_centi m"
      unfolding m_def by simp
    have "fmt_trimmed (Finite x) = CHR ''-'' # rstrip_char (CHR ''.'') (rstrip_char (CHR ''0'') (fmt_centi m))"
      unfolding fmt_trimmed_def f by (simp add: rstrip_char_minus)
    then show ?thesis
      unfolding f c' using t fmt_centi_hd [OF m] c' by (simp add: decimal_value_minus)
  next
    case False
    then have f: "fmt2 (Finite x) = fmt_centi m"
      unfolding m_def by simp
    show ?thesis
      unfolding fmt_trimmed_def f c' using t by simp
  qed
qed

subsection \<open>Overflow and the closeness test\<close>

lemma bit_length_pow2: "bit_length (2 ^ n) = int n + 1"
proof (induction n)
  case 0
  show ?case
    by (simp add: bit_length.simps [of 1] bit_length.simps [of 0])
next
  case (Suc n)
  have "bit_length (2 ^ Suc n) = 1 + bit_length (2 ^ Suc n div 2)"
    by (subst bit_length.simps) simp
  then show ?case using Suc by simp
qed

lemma ilog2_pow2: "ilog2 (2 ^ n) = int n"
proof -
  have "\<lfloor>(2::rat) ^ n\<rfloor> = 2 ^ n"
    by (metis floor_of_int of_int_numeral of_int_power)
  then show ?thesis
    by (simp add: ilog2_def bit_length_pow2)
qed

lemma round_double_pow2_overflow: "1024 \<le> n \<Longrightarrow> round_double (2 ^ n) = PosInf"
  by (simp add: round_double_def ilog2_pow2 Let_def)

lemma tolerance_value: "tolerance = Finite (4722366482869645 / 4722366482869645213696)"
  by code_simp

lemma near_integer_test:
  "fless (fabs (fsub (Finite x) (Finite y))) tolerance =
     (case round_double (x - y) of Finite d \<Rightarrow> \<bar>d\<bar> < 4722366482869645 / 4722366482869645213696 | _ \<Rightarrow> False)"
  by (simp add: fsub_def tolerance_value split: pyfloat.splits)

lemma scale_rendered:
  assumes "re_match (strip line) = Some (g1, g2)" and "frac_to_float (strip g1) = Inr q"
    and "fmul q ratio = Finite x" and "float_of_int (round_half_even x) = Inr (Finite y)"
  shows "scale_ingredient_line line ratio =
           Inr ((if (case round_double (x - y) of
                       Finite d \<Rightarrow> \<bar>d\<bar> < 4722366482869645 / 4722366482869645213696
                     | _ \<Rightarrow> False)
                 then str_int (round_half_even x)
                 else fmt_trimmed (Finite x)) @ '' '' @ strip g2)"
  using assms
  by (simp add: scale_ingredient_line_def scale_try_def near_integer_def ebind_def near_integer_test)

lemma scale_not_finite:
  assumes "re_match (strip line) = Some (g1, g2)" and "frac_to_float (strip g1) = Inr q"
    and "fmul q ratio = PosInf \<or> fmul q ratio = NegInf \<or> fmul q ratio = NaN"
  shows "scale_ingredient_line line ratio = Inr (strip line)"
  using assms
  by (auto simp: scale_ingredient_line_def scale_try_def near_integer_def ebind_def)





section \<open>The claims about the scaling helper\<close>

subsection \<open>The word boundary after the quantity\<close>




subsection \<open>No exception leaves the helper\<close>




subsection \<open>An empty remainder\<close>

text \<open>
  Claim C4 at the line \<^verbatim>\<open>2\<close> and the ratio \<^verbatim>\<open>2.0\<close>: the pattern matches with an
  empty remainder, the quantity is rendered as \<^verbatim>\<open>4\<close>, and the helper returns it
  followed by the separating space.
\<close>

theorem empty_remainder_leaves_trailing_space:
  "scale_ingredient_line ''2'' (Finite 2) = Inr ''4 ''"
  by code_simp

subsection \<open>How the scaled quantity is rendered\<close>

text \<open>
  Claim C6, as the code has it. Let the pattern match and the matched quantity convert
  to the float \<open>q\<close>.
  \<^item> When the product of \<open>q\<close> and the ratio is a finite float \<open>x\<close>, and \<open>y\<close> is the
    float of its nearest integer (ties to the even one), the helper returns the rendered
    quantity, one space and the trimmed remainder. The quantity is rendered as that
    integer when the float difference of \<open>x\<close> and \<open>y\<close> is smaller in absolute value
    than the float \<^verbatim>\<open>1e-6\<close>, and otherwise as \<open>x\<close> with two decimals, from which the
    trailing zeros and then a trailing point are removed.
  \<^item> The nearest integer is within one half of \<open>x\<close>; its rendering has no decimal
    point and denotes that integer. The rendering with two decimals is an optional minus
    sign, digits, a point and two digits; it denotes a number within one two-hundredth of
    \<open>x\<close>, and removing the trailing zeros and point does not change the number denoted.
  \<^item> When the product is an infinity or NaN, the helper returns the trimmed line
    unscaled.
  \<^item> The float \<^verbatim>\<open>1e-6\<close> is the stated rational, within \<open>10\<^sup>-\<^sup>2\<^sup>2\<close> of one millionth.
  \<^item> The two examples of the specification hold, as do four lines that tell the two
    renderings apart.
\<close>

theorem scaled_quantity_rendering:
  assumes "re_match (strip line) = Some (g1, g2)" and "frac_to_float (strip g1) = Inr q"
  shows
    "(\<forall>x y. fmul q ratio = Finite x \<and> float_of_int (round_half_even x) = Inr (Finite y) \<longrightarrow>
        scale_ingredient_line line ratio =
          Inr ((if (case round_double (x - y) of
                      Finite d \<Rightarrow> \<bar>d\<bar> < 4722366482869645 / 4722366482869645213696
                    | _ \<Rightarrow> False)
                then str_int (round_half_even x)
                else rstrip_char (CHR ''.'') (rstrip_char (CHR ''0'') (fmt2 (Finite x))))
               @ '' '' @ strip g2)
        \<and> \<bar>of_int (round_half_even x) - x\<bar> \<le> 1 / 2
        \<and> decimal_value (str_int (round_half_even x)) = of_int (round_half_even x)
        \<and> CHR ''.'' \<notin> set (str_int (round_half_even x))
        \<and> (\<exists>sg ip d1 d2. fmt2 (Finite x) = sg @ ip @ [CHR ''.'', d1, d2]
              \<and> (sg = [] \<or> sg = ''-'') \<and> ip \<noteq> [] \<and> (\<forall>c\<in>set (ip @ [d1, d2]). is_digit c))
        \<and> \<bar>decimal_value (fmt2 (Finite x)) - x\<bar> \<le> 1 / 200
        \<and> decimal_value (rstrip_char (CHR ''.'') (rstrip_char (CHR ''0'') (fmt2 (Finite x))))
            = decimal_value (fmt2 (Finite x)))
     \<and> (fmul q ratio = PosInf \<or> fmul q ratio = NegInf \<or> fmul q ratio = NaN \<longrightarrow>
          scale_ingredient_line line ratio = Inr (strip line))
     \<and> tolerance = Finite (4722366482869645 / 4722366482869645213696)
     \<and> \<bar>(4722366482869645 / 4722366482869645213696 :: rat) - 1 / 1000000\<bar> < 1 / 10 ^ 22
     \<and> scale_ingredient_line ''1/3 tsp salt'' (Finite 3) = Inr ''1 tsp salt''
     \<and> scale_ingredient_line ''2 cups milk'' (Finite 2) = Inr ''4 cups milk''
     \<and> scale_ingredient_line ''1.4 cups'' (Finite 1) = Inr ''1.4 cups''
     \<and> scale_ingredient_line ''1/4 cup'' (Finite 1) = Inr ''0.25 cup''
     \<and> scale_ingredient_line ''7.25 g'' (Finite 1) = Inr ''7.25 g''
     \<and> scale_ingredient_line ''1.0000001 l'' (Finite 1) = Inr ''1 l''"
proof -
  have main: "\<forall>x y. fmul q ratio = Finite x \<and> float_of_int (round_half_even x) = Inr (Finite y) \<longrightarrow>
        scale_ingredient_line line ratio =
          Inr ((if (case round_double (x - y) of
                      Finite d \<Rightarrow> \<bar>d\<bar> < 4722366482869645 / 4722366482869645213696
                    | _ \<Rightarrow> False)
                then str_int (round_half_even x)
                else rstrip_char (CHR ''.'') (rstrip_char (CHR ''0'') (fmt2 (Finite x))))
               @ '' '' @ strip g2)"
    using scale_rendered [OF assms] by (simp add: fmt_trimmed_def)
  have pins: "\<forall>x. \<bar>of_int (round_half_even x) - x\<bar> \<le> 1 / 2
        \<and> decimal_value (str_int (round_half_even x)) = of_int (round_half_even x)
        \<and> CHR ''.'' \<notin> set (str_int (round_half_even x))
        \<and> (\<exists>sg ip d1 d2. fmt2 (Finite x) = sg @ ip @ [CHR ''.'', d1, d2]
              \<and> (sg = [] \<or> sg = ''-'') \<and> ip \<noteq> [] \<and> (\<forall>c\<in>set (ip @ [d1, d2]). is_digit c))
        \<and> \<bar>decimal_value (fmt2 (Finite x)) - x\<bar> \<le> 1 / 200
        \<and> decimal_value (rstrip_char (CHR ''.'') (rstrip_char (CHR ''0'') (fmt2 (Finite x))))
            = decimal_value (fmt2 (Finite x))"
    using round_half_even_error decimal_value_str_int str_int_no_point fmt2_shape fmt2_error
      fmt_trimmed_value [unfolded fmt_trimmed_def]
    by blast
  have nf: "fmul q ratio = PosInf \<or> fmul q ratio = NegInf \<or> fmul q ratio = NaN \<longrightarrow>
          scale_ingredient_line line ratio = Inr (strip line)"
    using scale_not_finite [OF assms] by blast
  have tv: "\<bar>(4722366482869645 / 4722366482869645213696 :: rat) - 1 / 1000000\<bar> < 1 / 10 ^ 22"
    by simp
  have e1: "scale_ingredient_line ''1/3 tsp salt'' (Finite 3) = Inr ''1 tsp salt''"
    by code_simp
  have e2: "scale_ingredient_line ''2 cups milk'' (Finite 2) = Inr ''4 cups milk''"
    by code_simp
  have e3: "scale_ingredient_line ''1.4 cups'' (Finite 1) = Inr ''1.4 cups''"
    by code_simp
  have e4: "scale_ingredient_line ''1/4 cup'' (Finite 1) = Inr ''0.25 cup''"
    by code_simp
  have e5: "scale_ingredient_line ''7.25 g'' (Finite 1) = Inr ''7.25 g''"
    by code_simp
  have e6: "scale_ingredient_line ''1.0000001 l'' (Finite 1) = Inr ''1 l''"
    by code_simp
  show ?thesis
    using main pins nf tolerance_value tv e1 e2 e3 e4 e5 e6 by blast
qed

theorem scaled_quantity_rendering_witness:
  "re_match (strip ''1.4 cups'') = Some (''1.4'', '' cups'')
   \<and> frac_to_float (strip ''1.4'') = Inr (Finite (3152519739159347 / 2251799813685248))
   \<and> fmul (Finite (3152519739159347 / 2251799813685248)) (Finite 1)
       = Finite (3152519739159347 / 2251799813685248)
   \<and> float_of_int (round_half_even (3152519739159347 / 2251799813685248)) = Inr (Finite 1)
   \<and> scale_ingredient_line ''1.4 cups'' (Finite 1) = Inr ''1.4 cups''
   \<and> re_match (strip ''2 cups'') = Some (''2'', '' cups'')
   \<and> frac_to_float (strip ''2'') = Inr (Finite 2)
   \<and> fmul (Finite 2) (Finite (2 ^ 1023)) = PosInf
   \<and> scale_ingredient_line ''2 cups'' (Finite (2 ^ 1023)) = Inr (strip ''2 cups'')"
proof -
  have m: "re_match (strip ''1.4 cups'') = Some (''1.4'', '' cups'')"
    by code_simp
  have q: "frac_to_float (strip ''1.4'') = Inr (Finite (3152519739159347 / 2251799813685248))"
    by code_simp
  have x: "fmul (Finite (3152519739159347 / 2251799813685248)) (Finite 1)
       = Finite (3152519739159347 / 2251799813685248)"
    by code_simp
  have k: "float_of_int (round_half_even (3152519739159347 / 2251799813685248)) = Inr (Finite 1)"
    by code_simp
  have n: "round_double (3152519739159347 / 2251799813685248 - 1) = Finite (900719925474099 / 2251799813685248)"
    by code_simp
  have f: "rstrip_char (CHR ''.'') (rstrip_char (CHR ''0'')
             (fmt2 (Finite (3152519739159347 / 2251799813685248)))) = ''1.4''"
    by code_simp
  have r: "strip '' cups'' = ''cups''"
    by code_simp
  note t = scaled_quantity_rendering [OF m q, of "Finite 1"]
  have "scale_ingredient_line ''1.4 cups'' (Finite 1) =
          Inr ((if (case round_double (3152519739159347 / 2251799813685248 - 1) of
                      Finite d \<Rightarrow> \<bar>d\<bar> < 4722366482869645 / 4722366482869645213696
                    | _ \<Rightarrow> False)
                then str_int (round_half_even (3152519739159347 / 2251799813685248))
                else rstrip_char (CHR ''.'') (rstrip_char (CHR ''0'')
                       (fmt2 (Finite (3152519739159347 / 2251799813685248)))))
               @ '' '' @ strip '' cups'')"
    using t x k by blast
  then have 1: "scale_ingredient_line ''1.4 cups'' (Finite 1) = Inr ''1.4 cups''"
    unfolding n f r by simp
  have m2: "re_match (strip ''2 cups'') = Some (''2'', '' cups'')"
    by code_simp
  have q2: "frac_to_float (strip ''2'') = Inr (Finite 2)"
    by code_simp
  have "(2::rat) * 2 ^ 1023 = 2 ^ Suc 1023"
    by (simp only: power_Suc)
  then have x2: "fmul (Finite 2) (Finite (2 ^ 1023)) = PosInf"
    using round_double_pow2_overflow [of "Suc 1023"] by (simp only: fmul.simps)
  have 2: "scale_ingredient_line ''2 cups'' (Finite (2 ^ 1023)) = Inr (strip ''2 cups'')"
    using scaled_quantity_rendering [OF m2 q2, of "Finite (2 ^ 1023)"] x2 by blast
  show ?thesis
    using m q x k 1 m2 q2 x2 2 by blast
qed

theorem overflowing_ratio_counterexample:
  "scale_ingredient_line ''2 cups'' (Finite (2 ^ 1023)) = Inr ''2 cups''"
proof -
  have m: "re_match (strip ''2 cups'') = Some (''2'', '' cups'')"
    by code_simp
  have q: "frac_to_float (strip ''2'') = Inr (Finite 2)"
    by code_simp
  have s: "strip ''2 cups'' = ''2 cups''"
    by code_simp
  have "(2::rat) * 2 ^ 1023 = 2 ^ Suc 1023"
    by (simp only: power_Suc)
  then have "fmul (Finite 2) (Finite (2 ^ 1023)) = PosInf"
    using round_double_pow2_overflow [of "Suc 1023"] by (simp only: fmul.simps)
  then show ?thesis
    using scale_not_finite [OF m q] s by simp
qed

end
